theory Spec2Isabelle
  imports
    Main
    "HOL-Library.Word"
    "HOL-Library.Char_ord"
    "HOL-Library.List_Lexorder"
begin

section \<open>RtspMountPoints: reference-counted RTSP mount points\<close>

text \<open>
  A shallow embedding of \<^verbatim>\<open>src/RestreamServer/RtspMountPoints.cpp\<close>: the
  \<^verbatim>\<open>make_path\<close> hook that the RTSP framework calls to resolve a requested URL, and the
  \<^verbatim>\<open>client_closed\<close> handler it calls when a client's connection is closed.
\<close>

subsection \<open>Data\<close>

text \<open>A \<^verbatim>\<open>GstRTSPClient*\<close> is an opaque handle; only its identity is used.\<close>

type_synonym client = nat

text \<open>
  \<^verbatim>\<open>GstRTSPUrl\<close>: the two fields read by the code. \<^verbatim>\<open>query\<close> is a nullable C string.
\<close>

record url =
  abspath :: string
  query :: "string option"

text \<open>
  \<^verbatim>\<open>GstRTSPContext\<close>: the client of the current request and its nullable token; a token
  is a structure of named string fields, read with \<^verbatim>\<open>gst_rtsp_token_get_string\<close>.
\<close>

type_synonym token = "string \<rightharpoonup> string"

record rtsp_context =
  client :: client
  token :: "token option"

text \<open>
  The two media factories created per path. The play factory is bound to the splash source
  and to the proxy name, the record factory to the proxy name.
\<close>

datatype factory = PlayFactory string string | RecordFactory string

text \<open>
  The instance: \<^verbatim>\<open>proxy\<close> (\<^verbatim>\<open>uint64_t\<close>) and the two tables of \<^verbatim>\<open>CxxPrivate\<close>
  (\<^verbatim>\<open>pathsRefs\<close> counts in \<^verbatim>\<open>uint32_t\<close>), together with the state that the code
  changes inside the framework: the factories mounted in the parent \<^verbatim>\<open>GstRTSPMountPoints\<close>
  (\<^verbatim>\<open>gst_rtsp_mount_points_add_factory\<close> replaces the factory at a path,
  \<^verbatim>\<open>gst_rtsp_mount_points_remove_factory\<close> removes it) and the handlers connected to
  clients' \<^verbatim>\<open>closed\<close> signal by \<^verbatim>\<open>g_signal_connect\<close>, in connection order.
\<close>

record mount_points =
  proxy :: "64 word"
  pathsRefs :: "string \<rightharpoonup> 32 word"
  clientsToPaths :: "client \<rightharpoonup> string set"
  factories :: "string \<rightharpoonup> factory"
  closed_handlers :: "client list"

text \<open>
  What the translation unit takes from headers that are not part of the sources at hand:
  the macros \<^verbatim>\<open>MAX_PATHS_COUNT\<close> and \<^verbatim>\<open>MAX_CLIENTS_PER_PATH\<close> (0 switches a limit off),
  the macro \<^verbatim>\<open>BLUE\<close> (the path of the splash source), the \<^verbatim>\<open>authorizeAccess\<close> member
  of \<^verbatim>\<open>MountPointsCallbacks\<close> (an empty \<^verbatim>\<open>std::function\<close> is \<open>None\<close>), and whether
  \<^verbatim>\<open>assert\<close> is compiled out (\<^verbatim>\<open>NDEBUG\<close>).
\<close>

record config =
  MAX_PATHS_COUNT :: nat
  MAX_CLIENTS_PER_PATH :: nat
  BLUE :: string
  authorizeAccess :: "(string \<Rightarrow> string \<Rightarrow> bool) option"
  NDEBUG :: bool

text \<open>
  Every way \<^verbatim>\<open>make_path\<close> ends without a path: the three \<^verbatim>\<open>return nullptr\<close> after the
  authorization and capacity checks, the one for a missing context, and a failed \<^verbatim>\<open>assert\<close>.
\<close>

datatype error =
    NoContext
  | AuthorizationDenied
  | MaxPathsCountReached
  | MaxClientsPerPathReached
  | AssertionFailed

subsection \<open>Constants and formatting\<close>

definition RecordSuffix :: string where
  "RecordSuffix = ''?record''"

definition STATIC_SERVER_PORT_STR :: string where
  "STATIC_SERVER_PORT_STR = ''8000''"

definition GST_RTSP_TOKEN_MEDIA_FACTORY_ROLE :: string where
  "GST_RTSP_TOKEN_MEDIA_FACTORY_ROLE = ''media.factory.role''"

definition splashSource :: "config \<Rightarrow> string" where
  "splashSource cfg = ''rtsp://localhost:'' @ STATIC_SERVER_PORT_STR @ BLUE cfg"

text \<open>\<^verbatim>\<open>fmt::format("{}", n)\<close> for an unsigned integer: its decimal digits.\<close>

definition digit :: "nat \<Rightarrow> char" where
  "digit d = char_of (48 + d)"

fun decimal :: "nat \<Rightarrow> string" where
  "decimal n = (if n < 10 then [digit n] else decimal (n div 10) @ [digit (n mod 10)])"

declare decimal.simps [simp del]

definition proxyName :: "64 word \<Rightarrow> string" where
  "proxyName n = ''proxy'' @ decimal (unat n)"

subsection \<open>Framework primitives\<close>

definition add_factory :: "string \<Rightarrow> factory \<Rightarrow> mount_points \<Rightarrow> mount_points" where
  "add_factory path f self = self\<lparr>factories := (factories self)(path \<mapsto> f)\<rparr>"

definition remove_factory :: "string \<Rightarrow> mount_points \<Rightarrow> mount_points" where
  "remove_factory path self = self\<lparr>factories := (factories self)(path := None)\<rparr>"

definition signal_connect_closed :: "client \<Rightarrow> mount_points \<Rightarrow> mount_points" where
  "signal_connect_closed c self = self\<lparr>closed_handlers := closed_handlers self @ [c]\<rparr>"

subsection \<open>\<^verbatim>\<open>rtsp_mount_points_init\<close>\<close>

definition rtsp_mount_points_init :: mount_points where
  "rtsp_mount_points_init =
     \<lparr>proxy = 0, pathsRefs = Map.empty, clientsToPaths = Map.empty,
      factories = Map.empty, closed_handlers = []\<rparr>"

subsection \<open>\<^verbatim>\<open>client_closed\<close>\<close>

text \<open>The body of the loop over the client's paths, for one path.\<close>

definition release_path :: "string \<Rightarrow> mount_points \<Rightarrow> mount_points" where
  "release_path path self =
     (case pathsRefs self path of
        None \<Rightarrow> self
      | Some refs \<Rightarrow>
          if refs - 1 = 0 then
            (remove_factory (path @ RecordSuffix) (remove_factory path self))
              \<lparr>pathsRefs := (pathsRefs self)(path := None)\<rparr>
          else self\<lparr>pathsRefs := (pathsRefs self)(path \<mapsto> refs - 1)\<rparr>)"

text \<open>A \<^verbatim>\<open>std::set<std::string>\<close> is iterated in ascending order.\<close>

definition client_closed :: "client \<Rightarrow> mount_points \<Rightarrow> mount_points" where
  "client_closed c self =
     (case clientsToPaths self c of
        None \<Rightarrow> self
      | Some paths \<Rightarrow>
          (let self' = fold release_path (sorted_list_of_set paths) self
           in self'\<lparr>clientsToPaths := (clientsToPaths self')(c := None)\<rparr>))"

subsection \<open>\<^verbatim>\<open>authorize_access\<close>\<close>

definition authorize_access :: "config \<Rightarrow> rtsp_context \<Rightarrow> url \<Rightarrow> bool" where
  "authorize_access cfg ctx u =
     (case authorizeAccess cfg of
        Some f \<Rightarrow>
          (let user = (case token ctx of
                         Some t \<Rightarrow> t GST_RTSP_TOKEN_MEDIA_FACTORY_ROLE
                       | None \<Rightarrow> None)
           in f (case user of Some s \<Rightarrow> s | None \<Rightarrow> []) (abspath u))
      | None \<Rightarrow> True)"

subsection \<open>\<^verbatim>\<open>make_path\<close>\<close>

text \<open>
  Lines 203 to 218: the client is looked up; a new client gets the \<^verbatim>\<open>closed\<close> handler and
  a singleton set, a known one gets the path inserted. The flag is \<^verbatim>\<open>addPathRef\<close>.
\<close>

definition note_client_path :: "client \<Rightarrow> string \<Rightarrow> mount_points \<Rightarrow> bool \<times> mount_points" where
  "note_client_path c path self =
     (case clientsToPaths self c of
        None \<Rightarrow>
          (True,
           (signal_connect_closed c self)
             \<lparr>clientsToPaths := (clientsToPaths self)(c \<mapsto> {path})\<rparr>)
      | Some paths \<Rightarrow>
          (path \<notin> paths,
           self\<lparr>clientsToPaths := (clientsToPaths self)(c \<mapsto> insert path paths)\<rparr>))"

text \<open>Lines 227 to 241: the mount point of a path that is not in \<^verbatim>\<open>pathsRefs\<close>.\<close>

definition create_mount_point :: "config \<Rightarrow> string \<Rightarrow> mount_points \<Rightarrow> mount_points" where
  "create_mount_point cfg path self =
     (let name = proxyName (proxy self);
          self1 = self\<lparr>proxy := proxy self + 1\<rparr>;
          self2 = add_factory path (PlayFactory (splashSource cfg) name) self1;
          self3 = add_factory (path @ RecordSuffix) (RecordFactory name) self2
      in self3\<lparr>pathsRefs := (pathsRefs self3)(path \<mapsto> 1)\<rparr>)"

definition make_path ::
  "config \<Rightarrow> rtsp_context option \<Rightarrow> url \<Rightarrow> mount_points \<Rightarrow> (error + string) \<times> mount_points" where
  "make_path cfg current u self =
     (case current of
        None \<Rightarrow> (Inl (if NDEBUG cfg then NoContext else AssertionFailed), self)
      | Some ctx \<Rightarrow>
          if \<not> authorize_access cfg ctx u then (Inl AuthorizationDenied, self)
          else
            let path = abspath u;
                isRecord = (query u = Some ''record'');
                pathRefsIt = pathsRefs self path
            in
              if 0 < MAX_PATHS_COUNT cfg \<and> pathRefsIt = None \<and>
                 MAX_PATHS_COUNT cfg \<le> card (dom (pathsRefs self))
              then (Inl MaxPathsCountReached, self)
              else if 0 < MAX_CLIENTS_PER_PATH cfg \<and>
                      (case pathRefsIt of
                         None \<Rightarrow> False
                       | Some refs \<Rightarrow> MAX_CLIENTS_PER_PATH cfg \<le> unat refs)
              then (Inl MaxClientsPerPathReached, self)
              else
                let (addPathRef, self1) = note_client_path (client ctx) path self
                in
                  (case pathRefsIt of
                     None \<Rightarrow>
                       if \<not> NDEBUG cfg \<and> \<not> addPathRef then (Inl AssertionFailed, self1)
                       else
                         (Inr (if isRecord then abspath u @ ''?record'' else abspath u),
                          create_mount_point cfg path self1)
                   | Some refs \<Rightarrow>
                       (Inr (if isRecord then abspath u @ ''?record'' else abspath u),
                        self1\<lparr>pathsRefs := (pathsRefs self1)(path \<mapsto> refs + 1)\<rparr>)))"

subsection \<open>Runs of the instance\<close>

text \<open>
  The framework drives an instance through its two callbacks only: a request that reaches
  \<^verbatim>\<open>make_path\<close> (with the current context, if any) and the \<^verbatim>\<open>closed\<close> signal of a client.
\<close>

datatype event = Request "rtsp_context option" url | Closed client

definition step :: "config \<Rightarrow> event \<Rightarrow> mount_points \<Rightarrow> mount_points" where
  "step cfg ev self =
     (case ev of
        Request current u \<Rightarrow> snd (make_path cfg current u self)
      | Closed c \<Rightarrow> client_closed c self)"

definition run :: "config \<Rightarrow> event list \<Rightarrow> mount_points \<Rightarrow> mount_points" where
  "run cfg evs self = fold (step cfg) evs self"

text \<open>The reference count of a path, 0 for a path that has no entry in \<^verbatim>\<open>pathsRefs\<close>.\<close>

definition refcount :: "mount_points \<Rightarrow> string \<Rightarrow> 32 word" where
  "refcount self path = (case pathsRefs self path of None \<Rightarrow> 0 | Some refs \<Rightarrow> refs)"

text \<open>The clients whose set in \<^verbatim>\<open>clientsToPaths\<close> contains a path.\<close>

definition holders :: "mount_points \<Rightarrow> string \<Rightarrow> client set" where
  "holders self path = {c. \<exists>paths. clientsToPaths self c = Some paths \<and> path \<in> paths}"

subsection \<open>Sample configurations, requests and states\<close>

definition unlimited :: config where
  "unlimited =
     \<lparr>MAX_PATHS_COUNT = 0, MAX_CLIENTS_PER_PATH = 0, BLUE = ''/blue'',
      authorizeAccess = None, NDEBUG = False\<rparr>"

definition limit_paths :: "nat \<Rightarrow> config" where
  "limit_paths n = unlimited\<lparr>MAX_PATHS_COUNT := n\<rparr>"

definition limit_clients :: "nat \<Rightarrow> config" where
  "limit_clients n = unlimited\<lparr>MAX_CLIENTS_PER_PATH := n\<rparr>"

text \<open>An authorization callback that lets only the role \<^verbatim>\<open>alice\<close> in.\<close>

definition alice_only :: config where
  "alice_only = unlimited\<lparr>authorizeAccess := Some (\<lambda>user path. user = ''alice'')\<rparr>"

definition play_url :: "string \<Rightarrow> url" where
  "play_url path = \<lparr>abspath = path, query = None\<rparr>"

definition record_url :: "string \<Rightarrow> url" where
  "record_url path = \<lparr>abspath = path, query = Some ''record''\<rparr>"

definition request_of :: "client \<Rightarrow> rtsp_context option" where
  "request_of c = Some \<lparr>client = c, token = None\<rparr>"

definition alice_request :: "client \<Rightarrow> rtsp_context option" where
  "alice_request c =
     Some \<lparr>client = c, token = Some [GST_RTSP_TOKEN_MEDIA_FACTORY_ROLE \<mapsto> ''alice'']\<rparr>"

text \<open>Client 1 has requested \<^verbatim>\<open>/cam1\<close> once, on a fresh instance.\<close>

definition cam1_held :: "config \<Rightarrow> mount_points" where
  "cam1_held cfg =
     run cfg [Request (request_of 1) (play_url ''/cam1'')] rtsp_mount_points_init"

text \<open>Client 1, with the role \<^verbatim>\<open>alice\<close>, has requested \<^verbatim>\<open>/cam1\<close>.\<close>

definition alice_cam1 :: mount_points where
  "alice_cam1 =
     run alice_only [Request (alice_request 1) (play_url ''/cam1'')] rtsp_mount_points_init"

text \<open>Client 1 has requested \<^verbatim>\<open>/cam1\<close> twice.\<close>

definition cam1_twice :: mount_points where
  "cam1_twice =
     run unlimited
       [Request (request_of 1) (play_url ''/cam1''),
        Request (request_of 1) (play_url ''/cam1'')] rtsp_mount_points_init"

text \<open>Clients 1 and 2 hold \<^verbatim>\<open>/cam1\<close> and \<^verbatim>\<open>/cam2\<close>, with at most two paths allowed.\<close>

definition two_paths :: mount_points where
  "two_paths =
     run (limit_paths 2)
       [Request (request_of 1) (play_url ''/cam1''),
        Request (request_of 2) (play_url ''/cam2'')] rtsp_mount_points_init"

text \<open>
  Clients 1 and 2 hold \<^verbatim>\<open>/cam1\<close> (client 2 publishes to it), and client 1 holds
  \<^verbatim>\<open>/cam2\<close> as well.
\<close>

definition shared_cam1 :: mount_points where
  "shared_cam1 =
     run unlimited
       [Request (request_of 1) (play_url ''/cam1''),
        Request (request_of 2) (record_url ''/cam1''),
        Request (request_of 1) (play_url ''/cam2'')] rtsp_mount_points_init"

text \<open>The clients \<open>0, \<dots>, n - 1\<close> request one path, one after the other.\<close>

definition newcomers :: "string \<Rightarrow> nat \<Rightarrow> event list" where
  "newcomers path n = map (\<lambda>c. Request (request_of c) (play_url path)) [0..<n]"

text \<open>A client requests a path and its connection is closed, \<open>n\<close> times over.\<close>

definition reconnects :: "string \<Rightarrow> nat \<Rightarrow> event list" where
  "reconnects path n =
     concat (replicate n [Request (request_of 1) (play_url path), Closed 1])"

subsection \<open>The properties of the tables\<close>

text \<open>A path has an entry in \<^verbatim>\<open>pathsRefs\<close> exactly when its count is positive.\<close>

definition table_inv :: "mount_points \<Rightarrow> bool" where
  "table_inv self = (\<forall>path. path \<in> dom (pathsRefs self) \<longleftrightarrow> 0 < refcount self path)"

definition UINT32_MAX :: "32 word" where
  "UINT32_MAX = 4294967295"

text \<open>
  The proxy name given out by one call, if it creates a mount point: the request succeeds
  for a path without an entry, and the name is read off the play factory it mounts.
\<close>

definition created_proxy :: "config \<Rightarrow> event \<Rightarrow> mount_points \<Rightarrow> string list" where
  "created_proxy cfg ev self =
     (case ev of
        Closed c \<Rightarrow> []
      | Request current u \<Rightarrow>
          (case (pathsRefs self (abspath u), make_path cfg current u self) of
             (None, Inr r, self') \<Rightarrow>
               (case factories self' (abspath u) of
                  Some (PlayFactory source name) \<Rightarrow> [name]
                | _ \<Rightarrow> [])
           | _ \<Rightarrow> []))"

text \<open>The proxy names given out along a run, in order.\<close>

fun proxy_names :: "config \<Rightarrow> event list \<Rightarrow> mount_points \<Rightarrow> string list" where
  "proxy_names cfg [] self = []"
| "proxy_names cfg (ev # evs) self =
     created_proxy cfg ev self @ proxy_names cfg evs (step cfg ev self)"

text \<open>The number written by a string of decimal digits.\<close>

definition digits_value :: "string \<Rightarrow> nat" where
  "digits_value ds = foldl (\<lambda>a c. 10 * a + (of_char c - 48)) 0 ds"

section \<open>Evaluation of the sample states\<close>

lemmas eval_defs =
  make_path_def note_client_path_def create_mount_point_def authorize_access_def
  add_factory_def remove_factory_def signal_connect_closed_def rtsp_mount_points_init_def
  client_closed_def release_path_def step_def run_def splashSource_def
  STATIC_SERVER_PORT_STR_def RecordSuffix_def Let_def

lemmas sample_defs =
  unlimited_def limit_paths_def limit_clients_def alice_only_def
  play_url_def record_url_def request_of_def alice_request_def

lemma proxyName_0: "proxyName 0 = ''proxy0''"
  by code_simp

lemma proxyName_1: "proxyName 1 = ''proxy1''"
  by code_simp

lemma cam1_held_eq:
  "authorizeAccess cfg = None \<Longrightarrow> BLUE cfg = ''/blue'' \<Longrightarrow>
   cam1_held cfg =
     \<lparr>proxy = 1, pathsRefs = [''/cam1'' \<mapsto> 1], clientsToPaths = [1 \<mapsto> {''/cam1''}],
      factories =
        [''/cam1'' \<mapsto> PlayFactory ''rtsp://localhost:8000/blue'' ''proxy0'',
         ''/cam1?record'' \<mapsto> RecordFactory ''proxy0''],
      closed_handlers = [1]\<rparr>"
  by (auto simp: cam1_held_def eval_defs sample_defs proxyName_0)

lemma alice_cam1_eq:
  "alice_cam1 =
     \<lparr>proxy = 1, pathsRefs = [''/cam1'' \<mapsto> 1], clientsToPaths = [1 \<mapsto> {''/cam1''}],
      factories =
        [''/cam1'' \<mapsto> PlayFactory ''rtsp://localhost:8000/blue'' ''proxy0'',
         ''/cam1?record'' \<mapsto> RecordFactory ''proxy0''],
      closed_handlers = [1]\<rparr>"
  by (simp add: alice_cam1_def eval_defs sample_defs proxyName_0)

lemma cam1_twice_eq:
  "cam1_twice =
     \<lparr>proxy = 1, pathsRefs = [''/cam1'' \<mapsto> 2], clientsToPaths = [1 \<mapsto> {''/cam1''}],
      factories =
        [''/cam1'' \<mapsto> PlayFactory ''rtsp://localhost:8000/blue'' ''proxy0'',
         ''/cam1?record'' \<mapsto> RecordFactory ''proxy0''],
      closed_handlers = [1]\<rparr>"
  by (simp add: cam1_twice_def eval_defs sample_defs proxyName_0)

lemma two_paths_eq:
  "two_paths =
     \<lparr>proxy = 2, pathsRefs = [''/cam1'' \<mapsto> 1, ''/cam2'' \<mapsto> 1],
      clientsToPaths = [1 \<mapsto> {''/cam1''}, 2 \<mapsto> {''/cam2''}],
      factories =
        [''/cam1'' \<mapsto> PlayFactory ''rtsp://localhost:8000/blue'' ''proxy0'',
         ''/cam1?record'' \<mapsto> RecordFactory ''proxy0'',
         ''/cam2'' \<mapsto> PlayFactory ''rtsp://localhost:8000/blue'' ''proxy1'',
         ''/cam2?record'' \<mapsto> RecordFactory ''proxy1''],
      closed_handlers = [1, 2]\<rparr>"
  by (simp add: two_paths_def eval_defs sample_defs proxyName_0 proxyName_1)

section \<open>Requests\<close>

lemma note_client_path_unchanged:
  "note_client_path c path self = (False, self') \<Longrightarrow> self' = self"
  by (auto simp: note_client_path_def insert_absorb map_upd_triv split: option.splits)

text \<open>
  C5. A request is a publishing one exactly when the query of its URL is the string
  \<^verbatim>\<open>record\<close> (\<^verbatim>\<open>g_strcmp0\<close>: an absent query or any other spelling is not), and a
  successful \<^verbatim>\<open>make_path\<close> returns the absolute path followed by \<^verbatim>\<open>?record\<close> for a
  publishing request and the absolute path itself otherwise.
\<close>

theorem make_path_returns_path:
  "fst (make_path cfg current u self) = Inr r \<Longrightarrow>
   r = (if query u = Some ''record'' then abspath u @ ''?record'' else abspath u)"
  by (auto simp: make_path_def Let_def split: option.splits if_splits prod.splits)

theorem make_path_returns_path_witness:
  "fst (make_path unlimited (request_of 1) (record_url ''/cam1'') rtsp_mount_points_init)
     = Inr ''/cam1?record'' \<and>
   fst (make_path unlimited (request_of 1) \<lparr>abspath = ''/cam1'', query = Some ''Record''\<rparr>
          rtsp_mount_points_init) = Inr ''/cam1'' \<and>
   fst (make_path unlimited (request_of 1) (play_url ''/cam1'') rtsp_mount_points_init)
     = Inr ''/cam1''"
proof -
  have ok: "\<exists>r. fst (make_path unlimited (request_of 1) u rtsp_mount_points_init) = Inr r" for u
    by (simp add: eval_defs sample_defs)
  have "fst (make_path unlimited (request_of 1) u rtsp_mount_points_init) =
          Inr (if query u = Some ''record'' then abspath u @ ''?record'' else abspath u)" for u
    using ok [of u] make_path_returns_path [of unlimited "request_of 1" u rtsp_mount_points_init]
    by auto
  then show ?thesis
    by (simp add: sample_defs)
qed

text \<open>
  C10. A \<^verbatim>\<open>make_path\<close> that returns no path (authorization denied, either capacity limit
  reached, no current context, or a failed assertion) leaves the instance as it was: the
  two tables, the proxy counter, the mounted factories and the connected \<^verbatim>\<open>closed\<close>
  handlers.
\<close>

theorem make_path_rejected_unchanged:
  "fst (make_path cfg current u self) = Inl e \<Longrightarrow> snd (make_path cfg current u self) = self"
  by (auto simp: make_path_def Let_def split: option.splits if_splits prod.splits
           dest: note_client_path_unchanged)

theorem make_path_rejected_unchanged_witness:
  "fst (make_path alice_only (request_of 2) (play_url ''/cam1'') alice_cam1)
     = Inl AuthorizationDenied \<and>
   snd (make_path alice_only (request_of 2) (play_url ''/cam1'') alice_cam1) = alice_cam1 \<and>
   pathsRefs alice_cam1 = [''/cam1'' \<mapsto> 1]"
proof -
  have denied:
    "fst (make_path alice_only (request_of 2) (play_url ''/cam1'') alice_cam1)
       = Inl AuthorizationDenied"
    by (simp add: make_path_def authorize_access_def sample_defs)
  from denied make_path_rejected_unchanged [OF denied] show ?thesis
    by (simp add: alice_cam1_eq)
qed

text \<open>
  C6. With \<^verbatim>\<open>MAX_PATHS_COUNT\<close> positive, an authorized request for a path that has no
  entry in \<^verbatim>\<open>pathsRefs\<close> is rejected for the number of paths whenever the table holds that
  many paths or more, and nothing changes. A path that has an entry is not subject to this
  check: its request succeeds unless the limit of clients per path rejects it.
\<close>

theorem max_paths_count_check:
  assumes "0 < MAX_PATHS_COUNT cfg" and "authorize_access cfg ctx u"
  shows "(pathsRefs self (abspath u) = None \<and>
          MAX_PATHS_COUNT cfg \<le> card (dom (pathsRefs self))
            \<longrightarrow> make_path cfg (Some ctx) u self = (Inl MaxPathsCountReached, self)) \<and>
         (\<forall>refs. pathsRefs self (abspath u) = Some refs \<longrightarrow>
            fst (make_path cfg (Some ctx) u self) =
              (if 0 < MAX_CLIENTS_PER_PATH cfg \<and> MAX_CLIENTS_PER_PATH cfg \<le> unat refs
               then Inl MaxClientsPerPathReached
               else Inr (if query u = Some ''record'' then abspath u @ ''?record''
                         else abspath u)))"
  using assms
  by (auto simp: make_path_def Let_def split: prod.splits)

theorem max_paths_count_check_witness:
  "make_path (limit_paths 2) (request_of 3) (play_url ''/cam3'') two_paths
     = (Inl MaxPathsCountReached, two_paths) \<and>
   fst (make_path (limit_paths 2) (request_of 3) (play_url ''/cam1'') two_paths)
     = Inr ''/cam1''"
proof -
  have limit: "0 < MAX_PATHS_COUNT (limit_paths 2)"
    by (simp add: sample_defs)
  have allowed: "authorize_access (limit_paths 2) \<lparr>client = 3, token = None\<rparr> u" for u
    by (simp add: authorize_access_def sample_defs)
  have full: "pathsRefs two_paths ''/cam3'' = None \<and> card (dom (pathsRefs two_paths)) = 2"
    by (simp add: two_paths_eq)
  have present: "pathsRefs two_paths ''/cam1'' = Some 1"
    by (simp add: two_paths_eq)
  from max_paths_count_check [where u = "play_url ''/cam3''" and self = two_paths,
         OF limit allowed]
       max_paths_count_check [where u = "play_url ''/cam1''" and self = two_paths,
         OF limit allowed]
       full present
  show ?thesis
    by (simp add: sample_defs)
qed

text \<open>
  C3, as the code has it. With \<^verbatim>\<open>MAX_CLIENTS_PER_PATH\<close> positive, a request with a
  context is rejected for the number of clients of its path if and only if it is authorized,
  the path has an entry in \<^verbatim>\<open>pathsRefs\<close> and the count of that entry has reached the
  limit, whether or not the requesting client already holds the path. The rejection changes
  nothing, so the clients that hold the path keep it.
\<close>

theorem max_clients_per_path_check:
  "(fst (make_path cfg (Some ctx) u self) = Inl MaxClientsPerPathReached \<longleftrightarrow>
      authorize_access cfg ctx u \<and> 0 < MAX_CLIENTS_PER_PATH cfg \<and>
      (\<exists>refs. pathsRefs self (abspath u) = Some refs \<and>
               MAX_CLIENTS_PER_PATH cfg \<le> unat refs)) \<and>
   (fst (make_path cfg (Some ctx) u self) = Inl MaxClientsPerPathReached \<longrightarrow>
      snd (make_path cfg (Some ctx) u self) = self)"
  by (auto simp: make_path_def Let_def split: prod.splits option.splits)

theorem max_clients_per_path_check_witness:
  "make_path (limit_clients 1) (request_of 2) (play_url ''/cam1'') (cam1_held (limit_clients 1))
     = (Inl MaxClientsPerPathReached, cam1_held (limit_clients 1))"
proof -
  have "authorize_access (limit_clients 1) \<lparr>client = 2, token = None\<rparr> (play_url ''/cam1'') \<and>
        0 < MAX_CLIENTS_PER_PATH (limit_clients 1) \<and>
        pathsRefs (cam1_held (limit_clients 1)) (abspath (play_url ''/cam1'')) = Some 1 \<and>
        MAX_CLIENTS_PER_PATH (limit_clients 1) \<le> unat (1 :: 32 word)"
    by (simp add: cam1_held_eq authorize_access_def sample_defs)
  with max_clients_per_path_check
         [of "limit_clients 1" "\<lparr>client = 2, token = None\<rparr>" "play_url ''/cam1''"
             "cam1_held (limit_clients 1)"]
  show ?thesis
    by (simp add: request_of_def prod_eq_iff)
qed

text \<open>
  The claim C3 itself fails: with a limit of one client per path, client 1, which holds
  \<^verbatim>\<open>/cam1\<close>, is rejected when it requests \<^verbatim>\<open>/cam1\<close> again.
\<close>

theorem holder_rejected_by_max_clients_per_path:
  "clientsToPaths (cam1_held (limit_clients 1)) 1 = Some {''/cam1''} \<and>
   refcount (cam1_held (limit_clients 1)) ''/cam1'' = 1 \<and>
   fst (make_path (limit_clients 1) (request_of 1) (play_url ''/cam1'')
          (cam1_held (limit_clients 1))) = Inl MaxClientsPerPathReached"
  by (simp add: cam1_held_eq refcount_def make_path_def authorize_access_def sample_defs
        Let_def)

section \<open>Repeated requests of one client\<close>

text \<open>
  C1 asks that a second request of a client for a path it holds leaves the count of the path
  as it is. The code computes \<^verbatim>\<open>addPathRef\<close> for this and then increments the count without
  reading it: client 1 requests \<^verbatim>\<open>/cam1\<close> a second time, the request succeeds, and the count
  goes from 1 to 2.
\<close>

theorem repeated_request_increments_refcount:
  "clientsToPaths (cam1_held unlimited) 1 = Some {''/cam1''} \<and>
   refcount (cam1_held unlimited) ''/cam1'' = 1 \<and>
   fst (make_path unlimited (request_of 1) (play_url ''/cam1'') (cam1_held unlimited))
     = Inr ''/cam1'' \<and>
   refcount (snd (make_path unlimited (request_of 1) (play_url ''/cam1'')
                    (cam1_held unlimited))) ''/cam1'' = 2"
  by (simp add: cam1_held_eq refcount_def unlimited_def)
     (simp add: eval_defs sample_defs)

text \<open>
  C2 asks that the count of a path is the number of clients that hold it. After the two
  requests of client 1 for \<^verbatim>\<open>/cam1\<close> the count is 2 and the path has one holder.
\<close>

theorem refcount_exceeds_holders:
  "refcount cam1_twice ''/cam1'' = 2 \<and> holders cam1_twice ''/cam1'' = {1} \<and>
   card (holders cam1_twice ''/cam1'') = 1"
  by (auto simp: cam1_twice_eq refcount_def holders_def)

section \<open>Closed connections\<close>

lemma word_pred_zero_iff: "(refs :: 32 word) - 1 = 0 \<longleftrightarrow> refs = 1"
  by auto

lemma release_path_pathsRefs:
  "pathsRefs (release_path path self) =
     (pathsRefs self)(path :=
        (case pathsRefs self path of
           None \<Rightarrow> None
         | Some refs \<Rightarrow> if refs = 1 then None else Some (refs - 1)))"
  by (auto simp: release_path_def remove_factory_def split: option.splits)

lemma release_path_factories:
  "factories (release_path path self) =
     (if pathsRefs self path = Some 1
      then (factories self)(path := None, path @ RecordSuffix := None)
      else factories self)"
  by (auto simp: release_path_def remove_factory_def split: option.splits)

lemma release_path_others:
  "proxy (release_path path self) = proxy self"
  "clientsToPaths (release_path path self) = clientsToPaths self"
  "closed_handlers (release_path path self) = closed_handlers self"
  by (auto simp: release_path_def remove_factory_def split: option.splits)

lemma fold_release_path_others:
  "proxy (fold release_path xs self) = proxy self \<and>
   clientsToPaths (fold release_path xs self) = clientsToPaths self \<and>
   closed_handlers (fold release_path xs self) = closed_handlers self"
  by (induction xs arbitrary: self) (simp_all add: release_path_others)

lemma fold_release_path_pathsRefs:
  "distinct xs \<Longrightarrow>
   pathsRefs (fold release_path xs self) p =
     (if p \<in> set xs
      then (case pathsRefs self p of
              None \<Rightarrow> None
            | Some refs \<Rightarrow> if refs = 1 then None else Some (refs - 1))
      else pathsRefs self p)"
proof (induction xs arbitrary: self)
  case Nil
  then show ?case by simp
next
  case (Cons x xs)
  then show ?case
    by (auto simp: release_path_pathsRefs)
qed

lemma fold_release_path_factories:
  "distinct xs \<Longrightarrow>
   factories (fold release_path xs self) q =
     (if \<exists>p \<in> set xs. pathsRefs self p = Some 1 \<and> (q = p \<or> q = p @ RecordSuffix)
      then None else factories self q)"
proof (induction xs arbitrary: self)
  case Nil
  then show ?case by simp
next
  case (Cons x xs)
  from Cons.prems have dist: "distinct xs" and fresh: "x \<notin> set xs" by simp_all
  have same: "pathsRefs (release_path x self) p = pathsRefs self p" if "p \<in> set xs" for p
    using that fresh by (auto simp: release_path_pathsRefs)
  have "factories (fold release_path (x # xs) self) q =
          (if \<exists>p \<in> set xs. pathsRefs self p = Some 1 \<and> (q = p \<or> q = p @ RecordSuffix)
           then None else factories (release_path x self) q)"
    using Cons.IH [OF dist, of "release_path x self"] same by (simp cong: bex_cong)
  then show ?case
    by (auto simp: release_path_factories)
qed

text \<open>
  C7. \<^verbatim>\<open>client_closed\<close> for a client without an entry in \<^verbatim>\<open>clientsToPaths\<close> changes
  nothing. For a client with an entry whose paths all have entries in \<^verbatim>\<open>pathsRefs\<close>, the
  count of each of its paths goes down by one and no other path's count changes; a path
  whose count was 1 loses its entry and the factories mounted at the path and at the path
  followed by \<^verbatim>\<open>?record\<close>, and no other factory is removed; the client's entry is erased;
  the proxy counter and the connected handlers stay.
\<close>

theorem client_closed_releases_held_paths:
  "(clientsToPaths self c = None \<longrightarrow> client_closed c self = self) \<and>
   (\<forall>paths. clientsToPaths self c = Some paths \<and> finite paths \<and>
             paths \<subseteq> dom (pathsRefs self) \<longrightarrow>
      (\<forall>p \<in> paths. \<exists>refs. pathsRefs self p = Some refs \<and>
          pathsRefs (client_closed c self) p = (if refs = 1 then None else Some (refs - 1))) \<and>
      (\<forall>p. p \<notin> paths \<longrightarrow> pathsRefs (client_closed c self) p = pathsRefs self p) \<and>
      (\<forall>q. factories (client_closed c self) q =
         (if \<exists>p \<in> paths. pathsRefs self p = Some 1 \<and> (q = p \<or> q = p @ ''?record'')
          then None else factories self q)) \<and>
      clientsToPaths (client_closed c self) = (clientsToPaths self)(c := None) \<and>
      proxy (client_closed c self) = proxy self \<and>
      closed_handlers (client_closed c self) = closed_handlers self)"
proof (intro conjI allI impI)
  show "client_closed c self = self" if "clientsToPaths self c = None"
    using that by (simp add: client_closed_def)
next
  fix paths
  assume a: "clientsToPaths self c = Some paths \<and> finite paths \<and> paths \<subseteq> dom (pathsRefs self)"
  let ?xs = "sorted_list_of_set paths"
  from a have xs: "distinct ?xs" "set ?xs = paths" by simp_all
  have closed: "client_closed c self =
      (fold release_path ?xs self)\<lparr>clientsToPaths := (clientsToPaths self)(c := None)\<rparr>"
    using a by (simp add: client_closed_def Let_def fold_release_path_others)
  show "\<forall>p \<in> paths. \<exists>refs. pathsRefs self p = Some refs \<and>
          pathsRefs (client_closed c self) p = (if refs = 1 then None else Some (refs - 1))"
  proof
    fix p assume p: "p \<in> paths"
    with a obtain refs where refs: "pathsRefs self p = Some refs" by blast
    with p xs have "pathsRefs (client_closed c self) p = (if refs = 1 then None else Some (refs - 1))"
      by (simp add: closed fold_release_path_pathsRefs)
    with refs show "\<exists>refs. pathsRefs self p = Some refs \<and>
          pathsRefs (client_closed c self) p = (if refs = 1 then None else Some (refs - 1))"
      by blast
  qed
  show "pathsRefs (client_closed c self) p = pathsRefs self p" if "p \<notin> paths" for p
    using that xs by (simp add: closed fold_release_path_pathsRefs)
  show "factories (client_closed c self) q =
         (if \<exists>p \<in> paths. pathsRefs self p = Some 1 \<and> (q = p \<or> q = p @ ''?record'')
          then None else factories self q)" for q
    using xs by (simp add: closed fold_release_path_factories RecordSuffix_def)
  show "clientsToPaths (client_closed c self) = (clientsToPaths self)(c := None)"
    by (simp add: closed)
  show "proxy (client_closed c self) = proxy self"
    by (simp add: closed fold_release_path_others)
  show "closed_handlers (client_closed c self) = closed_handlers self"
    by (simp add: closed fold_release_path_others)
qed

lemma shared_cam1_eq:
  "shared_cam1 =
     \<lparr>proxy = 2, pathsRefs = [''/cam1'' \<mapsto> 2, ''/cam2'' \<mapsto> 1],
      clientsToPaths = [2 \<mapsto> {''/cam1''}, 1 \<mapsto> {''/cam1'', ''/cam2''}],
      factories =
        [''/cam1'' \<mapsto> PlayFactory ''rtsp://localhost:8000/blue'' ''proxy0'',
         ''/cam1?record'' \<mapsto> RecordFactory ''proxy0'',
         ''/cam2'' \<mapsto> PlayFactory ''rtsp://localhost:8000/blue'' ''proxy1'',
         ''/cam2?record'' \<mapsto> RecordFactory ''proxy1''],
      closed_handlers = [1, 2]\<rparr>"
  by (simp add: shared_cam1_def eval_defs sample_defs proxyName_0 proxyName_1 insert_commute)

theorem client_closed_releases_held_paths_witness:
  "client_closed 9 shared_cam1 = shared_cam1 \<and>
   pathsRefs (client_closed 1 shared_cam1) = [''/cam1'' \<mapsto> 1] \<and>
   clientsToPaths (client_closed 1 shared_cam1) = [2 \<mapsto> {''/cam1''}] \<and>
   factories (client_closed 1 shared_cam1) =
     [''/cam1'' \<mapsto> PlayFactory ''rtsp://localhost:8000/blue'' ''proxy0'',
      ''/cam1?record'' \<mapsto> RecordFactory ''proxy0'']"
proof -
  have absent: "clientsToPaths shared_cam1 9 = None"
    by (simp add: shared_cam1_eq)
  have held: "clientsToPaths shared_cam1 1 = Some {''/cam1'', ''/cam2''} \<and>
      finite {''/cam1'', ''/cam2''} \<and> {''/cam1'', ''/cam2''} \<subseteq> dom (pathsRefs shared_cam1)"
    by (simp add: shared_cam1_eq)
  note gone = client_closed_releases_held_paths [of shared_cam1 9, THEN conjunct1, rule_format, OF absent]
  note left = client_closed_releases_held_paths [of shared_cam1 1, THEN conjunct2, rule_format, OF held]
  have "pathsRefs (client_closed 1 shared_cam1) p = [''/cam1'' \<mapsto> 1] p" for p
    using left by (cases "p \<in> {''/cam1'', ''/cam2''}") (auto simp: shared_cam1_eq)
  moreover have "factories (client_closed 1 shared_cam1) q =
     [''/cam1'' \<mapsto> PlayFactory ''rtsp://localhost:8000/blue'' ''proxy0'',
      ''/cam1?record'' \<mapsto> RecordFactory ''proxy0''] q" for q
    using left by (auto simp: shared_cam1_eq)
  moreover have "clientsToPaths (client_closed 1 shared_cam1) = [2 \<mapsto> {''/cam1''}]"
    using left by (auto simp: shared_cam1_eq)
  ultimately show ?thesis
    using gone by (simp add: fun_eq_iff)
qed

section \<open>Presence in the table and positive counts\<close>

lemma table_inv_iff: "table_inv self \<longleftrightarrow> (\<forall>path. pathsRefs self path \<noteq> Some 0)"
  by (auto simp: table_inv_def refcount_def dom_def word_greater_zero_iff split: option.splits)

lemma make_path_pathsRefs:
  "pathsRefs (snd (make_path cfg current u self)) =
     (case fst (make_path cfg current u self) of
        Inl e \<Rightarrow> pathsRefs self
      | Inr r \<Rightarrow> (pathsRefs self)(abspath u \<mapsto> refcount self (abspath u) + 1))"
  by (auto simp: make_path_def note_client_path_def create_mount_point_def add_factory_def
        signal_connect_closed_def refcount_def Let_def
      split: option.splits prod.splits)

lemma release_path_table_inv: "table_inv self \<Longrightarrow> table_inv (release_path path self)"
  by (auto simp: table_inv_iff release_path_pathsRefs split: option.splits)

lemma fold_release_path_table_inv:
  "table_inv self \<Longrightarrow> table_inv (fold release_path xs self)"
  by (induction xs arbitrary: self) (simp_all add: release_path_table_inv)

lemma client_closed_table_inv: "table_inv self \<Longrightarrow> table_inv (client_closed c self)"
  using fold_release_path_table_inv [of self]
  by (auto simp: client_closed_def Let_def table_inv_iff split: option.splits)

lemma UINT32_MAX_succ: "refs + 1 = 0 \<longleftrightarrow> refs = UINT32_MAX" for refs :: "32 word"
proof
  assume "refs + 1 = 0"
  then have "refs = - 1" by (simp add: eq_neg_iff_add_eq_0)
  then show "refs = UINT32_MAX" by (simp add: UINT32_MAX_def)
next
  assume "refs = UINT32_MAX"
  then show "refs + 1 = 0" by (simp add: UINT32_MAX_def)
qed

text \<open>
  C4, as the code has it. Let every path with an entry in \<^verbatim>\<open>pathsRefs\<close> have a positive
  count. Then this still holds after \<^verbatim>\<open>client_closed\<close>, and after \<^verbatim>\<open>make_path\<close> provided
  the count of the requested path is not \<^verbatim>\<open>UINT32_MAX\<close> (the \<^verbatim>\<open>uint32_t\<close> count of an
  entry is incremented and wraps to 0 there). A successful request for a path without an entry
  gives it the count 1, and the loop body of \<^verbatim>\<open>client_closed\<close> erases an entry exactly
  when the decremented count is 0.
\<close>

theorem table_inv_preserved:
  assumes "table_inv self"
  shows "(refcount self (abspath u) \<noteq> UINT32_MAX \<longrightarrow>
            table_inv (snd (make_path cfg current u self))) \<and>
         table_inv (client_closed c self) \<and>
         (\<forall>r. pathsRefs self (abspath u) = None \<and> fst (make_path cfg current u self) = Inr r
            \<longrightarrow> pathsRefs (snd (make_path cfg current u self)) (abspath u) = Some 1) \<and>
         (\<forall>path refs. pathsRefs self path = Some refs \<longrightarrow>
            pathsRefs (release_path path self) path =
              (if refs - 1 = 0 then None else Some (refs - 1)))"
proof (intro conjI impI allI)
  assume "refcount self (abspath u) \<noteq> UINT32_MAX"
  with assms show "table_inv (snd (make_path cfg current u self))"
    by (auto simp: table_inv_iff make_path_pathsRefs UINT32_MAX_succ split: sum.splits)
next
  from assms show "table_inv (client_closed c self)"
    by (rule client_closed_table_inv)
next
  fix r
  assume "pathsRefs self (abspath u) = None \<and> fst (make_path cfg current u self) = Inr r"
  then show "pathsRefs (snd (make_path cfg current u self)) (abspath u) = Some 1"
    by (simp add: make_path_pathsRefs refcount_def)
next
  fix path refs
  assume "pathsRefs self path = Some refs"
  then show "pathsRefs (release_path path self) path =
              (if refs - 1 = 0 then None else Some (refs - 1))"
    by (simp add: release_path_pathsRefs)
qed

lemma run_append: "run cfg (evs @ evs') self = run cfg evs' (run cfg evs self)"
  by (simp add: run_def)

lemma newcomers_Suc:
  "newcomers path (Suc n) = newcomers path n @ [Request (request_of n) (play_url path)]"
  by (simp add: newcomers_def)

lemma unlimited_request_present:
  "pathsRefs self path = Some refs \<Longrightarrow>
   pathsRefs (snd (make_path unlimited (request_of c) (play_url path) self)) =
     (pathsRefs self)(path \<mapsto> refs + 1)"
proof -
  assume present: "pathsRefs self path = Some refs"
  then have "fst (make_path unlimited (request_of c) (play_url path) self) = Inr path"
    by (simp add: make_path_def authorize_access_def sample_defs Let_def split: prod.splits)
  with present show ?thesis
    by (simp add: make_path_pathsRefs refcount_def play_url_def)
qed

lemma newcomers_pathsRefs:
  "pathsRefs (run unlimited (newcomers path (Suc n)) rtsp_mount_points_init)
     = [path \<mapsto> of_nat (Suc n)]"
proof (induction n)
  case 0
  show ?case
    by (simp add: newcomers_def eval_defs sample_defs)
next
  case (Suc n)
  let ?before = "run unlimited (newcomers path (Suc n)) rtsp_mount_points_init"
  have present: "pathsRefs ?before path = Some (of_nat (Suc n))"
    by (simp add: Suc.IH)
  have "run unlimited (newcomers path (Suc (Suc n))) rtsp_mount_points_init =
          snd (make_path unlimited (request_of (Suc n)) (play_url path) ?before)"
    by (simp add: newcomers_Suc [of path "Suc n"] run_append) (simp add: run_def step_def)
  then have "pathsRefs (run unlimited (newcomers path (Suc (Suc n))) rtsp_mount_points_init) =
          (pathsRefs ?before)(path \<mapsto> of_nat (Suc n) + 1)"
    using unlimited_request_present [OF present] by simp
  then show ?case
    by (simp add: Suc.IH add.commute fun_eq_iff)
qed

text \<open>
  The claim C4 itself fails when a count wraps: after \<open>2\<^sup>3\<^sup>2\<close> clients have requested
  \<^verbatim>\<open>/cam1\<close>, with no limit configured, the path has an entry whose count is 0.
\<close>

theorem refcount_wraps_to_zero:
  "pathsRefs (run unlimited (newcomers ''/cam1'' 4294967296) rtsp_mount_points_init) ''/cam1''
     = Some 0 \<and>
   \<not> table_inv (run unlimited (newcomers ''/cam1'' 4294967296) rtsp_mount_points_init)"
proof -
  have "(4294967296 :: nat) = Suc 4294967295" by simp
  then have "pathsRefs (run unlimited (newcomers ''/cam1'' 4294967296) rtsp_mount_points_init)
     = [''/cam1'' \<mapsto> of_nat (Suc 4294967295)]"
    using newcomers_pathsRefs [of "''/cam1''" 4294967295] by (simp only:)
  then have "pathsRefs (run unlimited (newcomers ''/cam1'' 4294967296) rtsp_mount_points_init)
      ''/cam1'' = Some 0"
    by simp
  then show ?thesis
    by (auto simp: table_inv_iff)
qed

theorem table_inv_preserved_witness:
  "table_inv (cam1_held unlimited) \<and>
   table_inv (snd (make_path unlimited (request_of 2) (play_url ''/cam1'') (cam1_held unlimited))) \<and>
   table_inv (client_closed 1 (cam1_held unlimited))"
proof -
  have inv: "table_inv (cam1_held unlimited)"
    by (simp add: table_inv_iff cam1_held_eq unlimited_def)
  have room: "refcount (cam1_held unlimited) (abspath (play_url ''/cam1'')) \<noteq> UINT32_MAX"
    by (simp add: refcount_def cam1_held_eq unlimited_def play_url_def UINT32_MAX_def)
  from table_inv_preserved [OF inv, where u = "play_url ''/cam1''" and cfg = unlimited
             and current = "request_of 2" and c = 1] room inv
  show ?thesis by simp
qed

section \<open>Proxy names\<close>

lemma digits_value_snoc:
  "digits_value (ds @ [c]) = 10 * digits_value ds + (of_char c - 48)"
  by (simp add: digits_value_def)

lemma of_char_digit: "d < 10 \<Longrightarrow> of_char (digit d) = 48 + d"
  by (simp add: digit_def)

lemma digits_value_decimal: "digits_value (decimal n) = n"
proof (induction n rule: decimal.induct)
  case (1 n)
  show ?case
  proof (cases "n < 10")
    case True
    then show ?thesis
      by (subst decimal.simps) (simp add: digits_value_def of_char_digit)
  next
    case False
    with 1 have "digits_value (decimal (n div 10)) = n div 10" by simp
    with False show ?thesis
      by (subst decimal.simps) (simp add: digits_value_snoc of_char_digit)
  qed
qed

lemma decimal_inject: "decimal m = decimal n \<Longrightarrow> m = n"
  by (metis digits_value_decimal)

lemma proxyName_inject: "proxyName a = proxyName b \<Longrightarrow> a = b"
proof -
  assume "proxyName a = proxyName b"
  then have "decimal (unat a) = decimal (unat b)"
    by (simp add: proxyName_def)
  then have "unat a = unat b"
    by (rule decimal_inject)
  then show "a = b"
    by (simp add: word_unat_eq_iff)
qed

lemma client_closed_proxy: "proxy (client_closed c self) = proxy self"
  by (simp add: client_closed_def Let_def fold_release_path_others split: option.splits)

lemma created_proxy_step:
  "created_proxy cfg ev self = [] \<and> proxy (step cfg ev self) = proxy self \<or>
   created_proxy cfg ev self = [proxyName (proxy self)] \<and>
     proxy (step cfg ev self) = proxy self + 1"
proof (cases ev)
  case (Closed c)
  then show ?thesis
    by (simp add: created_proxy_def step_def client_closed_proxy)
next
  case (Request current u)
  then show ?thesis
    by (auto simp: created_proxy_def step_def make_path_def note_client_path_def
          create_mount_point_def add_factory_def signal_connect_closed_def RecordSuffix_def
          Let_def
        split: option.splits prod.splits)
qed

lemma proxy_names_counter:
  "proxy_names cfg evs self =
     map (\<lambda>k. proxyName (proxy self + of_nat k)) [0..<length (proxy_names cfg evs self)]"
proof (induction evs arbitrary: self)
  case Nil
  show ?case by simp
next
  case (Cons ev evs)
  let ?rest = "proxy_names cfg evs (step cfg ev self)"
  from created_proxy_step [of cfg ev self] show ?case
  proof
    assume "created_proxy cfg ev self = [] \<and> proxy (step cfg ev self) = proxy self"
    then show ?thesis
      using Cons.IH [of "step cfg ev self"] by simp
  next
    assume new: "created_proxy cfg ev self = [proxyName (proxy self)] \<and>
      proxy (step cfg ev self) = proxy self + 1"
    have "?rest = map (\<lambda>k. proxyName (proxy self + 1 + of_nat k)) [0..<length ?rest]"
      using Cons.IH [of "step cfg ev self"] new by simp
    also have "\<dots> = map (\<lambda>k. proxyName (proxy self + of_nat k)) (map Suc [0..<length ?rest])"
      by (simp add: add.assoc)
    also have "\<dots> = map (\<lambda>k. proxyName (proxy self + of_nat k)) [Suc 0..<Suc (length ?rest)]"
      by (simp only: map_Suc_upt)
    finally have "proxy_names cfg (ev # evs) self =
        map (\<lambda>k. proxyName (proxy self + of_nat k)) (0 # [Suc 0..<Suc (length ?rest)])"
      using new by simp
    moreover have "length (proxy_names cfg (ev # evs) self) = Suc (length ?rest)"
      using new by simp
    moreover have "[0..<Suc (length ?rest)] = 0 # [Suc 0..<Suc (length ?rest)]"
      by (rule upt_conv_Cons) simp
    ultimately show ?thesis by (simp only:)
  qed
qed

lemma word64_of_nat_inject:
  "j < 2 ^ 64 \<Longrightarrow> k < 2 ^ 64 \<Longrightarrow> (of_nat j :: 64 word) = of_nat k \<Longrightarrow> j = k"
  by (simp add: word_of_nat_eq_iff take_bit_nat_eq_self)

text \<open>
  C8, as the code has it. The proxy names given out along a run, from any state of the
  instance, are the names of consecutive values of the \<^verbatim>\<open>uint64_t\<close> counter \<^verbatim>\<open>proxy\<close>;
  as long as a run gives out at most \<open>2\<^sup>6\<^sup>4\<close> names, no two of them are the same, also
  when a path is torn down and created again.
\<close>

theorem proxy_names_distinct:
  "length (proxy_names cfg evs self) \<le> 2 ^ 64 \<Longrightarrow> distinct (proxy_names cfg evs self)"
proof -
  let ?n = "length (proxy_names cfg evs self)"
  assume bound: "?n \<le> 2 ^ 64"
  have "inj_on (\<lambda>k. proxyName (proxy self + of_nat k)) (set [0..<?n])"
  proof (rule inj_onI)
    fix j k
    assume "j \<in> set [0..<?n]" and "k \<in> set [0..<?n]"
      and "proxyName (proxy self + of_nat j) = proxyName (proxy self + of_nat k)"
    with bound have "j < 2 ^ 64" "k < 2 ^ 64" "(of_nat j :: 64 word) = of_nat k"
      by (auto dest: proxyName_inject)
    then show "j = k" by (rule word64_of_nat_inject)
  qed
  then have "distinct (map (\<lambda>k. proxyName (proxy self + of_nat k)) [0..<?n])"
    by (simp add: distinct_map)
  then show ?thesis
    using proxy_names_counter [of cfg evs self] by simp
qed

lemma created_proxy_Closed: "created_proxy cfg (Closed c) self = []"
  by (simp add: created_proxy_def)

lemma reconnect_once:
  assumes "pathsRefs self = Map.empty" and "clientsToPaths self = Map.empty"
  shows "created_proxy unlimited (Request (request_of 1) (play_url path)) self
           = [proxyName (proxy self)]"
    and "pathsRefs (step unlimited (Closed 1)
           (step unlimited (Request (request_of 1) (play_url path)) self)) = Map.empty"
    and "clientsToPaths (step unlimited (Closed 1)
           (step unlimited (Request (request_of 1) (play_url path)) self)) = Map.empty"
  using assms
  by (simp_all add: created_proxy_def eval_defs sample_defs)

lemma reconnects_Suc:
  "reconnects path (Suc n) =
     Request (request_of 1) (play_url path) # Closed 1 # reconnects path n"
  by (simp add: reconnects_def)

lemma length_reconnect_names:
  "pathsRefs self = Map.empty \<Longrightarrow> clientsToPaths self = Map.empty \<Longrightarrow>
   length (proxy_names unlimited (reconnects path n) self) = n"
proof (induction n arbitrary: self)
  case 0
  show ?case by (simp add: reconnects_def)
next
  case (Suc n)
  note once = reconnect_once [OF Suc.prems, where path = path]
  from Suc.IH [OF once(2) once(3)] once(1) show ?case
    by (simp add: reconnects_Suc created_proxy_Closed)
qed

lemma reconnect_names_nth:
  assumes "k < n"
  shows "proxy_names unlimited (reconnects path n) rtsp_mount_points_init ! k
           = proxyName (of_nat k)"
proof -
  let ?names = "proxy_names unlimited (reconnects path n) rtsp_mount_points_init"
  have len: "length ?names = n"
    by (rule length_reconnect_names) (simp_all add: rtsp_mount_points_init_def)
  have "?names ! k =
      map (\<lambda>k. proxyName (proxy rtsp_mount_points_init + of_nat k)) [0..<length ?names] ! k"
    using proxy_names_counter [of unlimited "reconnects path n" rtsp_mount_points_init]
    by simp
  also have "\<dots> = proxyName (proxy rtsp_mount_points_init + of_nat k)"
    using assms len by simp
  finally show ?thesis
    by (simp add: rtsp_mount_points_init_def)
qed

text \<open>
  The claim C8 itself fails when the counter wraps: when \<^verbatim>\<open>/cam1\<close> is requested and its
  only client closed \<open>2\<^sup>6\<^sup>4 + 1\<close> times over, the first and the last mount point are both
  given the name \<^verbatim>\<open>proxy0\<close>.
\<close>

theorem proxy_name_repeats_after_wrap:
  "proxy_names unlimited (reconnects ''/cam1'' 18446744073709551617) rtsp_mount_points_init ! 0
     = ''proxy0'' \<and>
   proxy_names unlimited (reconnects ''/cam1'' 18446744073709551617) rtsp_mount_points_init
     ! 18446744073709551616 = ''proxy0'' \<and>
   \<not> distinct
     (proxy_names unlimited (reconnects ''/cam1'' 18446744073709551617) rtsp_mount_points_init)"
proof -
  let ?names =
    "proxy_names unlimited (reconnects ''/cam1'' 18446744073709551617) rtsp_mount_points_init"
  have len: "length ?names = 18446744073709551617"
    by (rule length_reconnect_names) (simp_all add: rtsp_mount_points_init_def)
  have wrap: "(of_nat 18446744073709551616 :: 64 word) = 0"
    by simp
  have first: "?names ! 0 = ''proxy0''"
    using reconnect_names_nth [of 0 18446744073709551617 "''/cam1''"]
    by (simp add: proxyName_0)
  have "?names ! 18446744073709551616 = proxyName (of_nat 18446744073709551616)"
    by (rule reconnect_names_nth) simp
  then have again: "?names ! 18446744073709551616 = ''proxy0''"
    by (simp only: wrap proxyName_0)
  have "\<not> distinct ?names"
  proof
    assume "distinct ?names"
    then have "?names ! 0 \<noteq> ?names ! 18446744073709551616"
      using len by (simp add: nth_eq_iff_index_eq)
    with first again show False by simp
  qed
  with first again show ?thesis by simp
qed

theorem proxy_names_distinct_witness:
  "proxy_names unlimited (reconnects ''/cam1'' 2) rtsp_mount_points_init
     = [''proxy0'', ''proxy1''] \<and>
   distinct (proxy_names unlimited (reconnects ''/cam1'' 2) rtsp_mount_points_init)"
proof -
  let ?names = "proxy_names unlimited (reconnects ''/cam1'' 2) rtsp_mount_points_init"
  have len: "length ?names = 2"
    by (rule length_reconnect_names) (simp_all add: rtsp_mount_points_init_def)
  then have few: "length ?names \<le> 2 ^ 64"
    by simp
  have "?names ! 0 = ''proxy0''" "?names ! 1 = ''proxy1''"
    using reconnect_names_nth [of 0 2 "''/cam1''"] reconnect_names_nth [of 1 2 "''/cam1''"]
    by (simp_all add: proxyName_0 proxyName_1)
  with len have "?names = [''proxy0'', ''proxy1'']"
    by (simp add: list_eq_iff_nth_eq less_Suc_eq numeral_2_eq_2)
  with proxy_names_distinct [OF few] show ?thesis
    by simp
qed

section \<open>Two clients on one path\<close>

text \<open>
  Client 1 plays \<^verbatim>\<open>/cam1\<close> and client 2 publishes to it: the count goes to 1 and to 2;
  when client 1 is closed the count is 1 and both factories stay mounted; when client 2 is
  closed as well, nothing is left but the proxy counter and the handlers.
\<close>

lemma two_clients_scenario:
  "refcount (cam1_held unlimited) ''/cam1'' = 1 \<and>
   fst (make_path unlimited (request_of 2) (record_url ''/cam1'') (cam1_held unlimited))
     = Inr ''/cam1?record'' \<and>
   refcount (run unlimited [Request (request_of 2) (record_url ''/cam1'')]
               (cam1_held unlimited)) ''/cam1'' = 2 \<and>
   refcount (run unlimited [Request (request_of 2) (record_url ''/cam1''), Closed 1]
               (cam1_held unlimited)) ''/cam1'' = 1 \<and>
   dom (factories (run unlimited [Request (request_of 2) (record_url ''/cam1''), Closed 1]
               (cam1_held unlimited))) = {''/cam1'', ''/cam1?record''} \<and>
   run unlimited [Request (request_of 2) (record_url ''/cam1''), Closed 1, Closed 2]
     (cam1_held unlimited) = rtsp_mount_points_init\<lparr>proxy := 1, closed_handlers := [1, 2]\<rparr>"
  by (simp add: cam1_held_eq unlimited_def refcount_def)
     (auto simp add: eval_defs sample_defs)

end
